theory Spec2Isabelle
  imports Main
begin

section \<open>Entity model (app/models)\<close>

text \<open>
  The three mapped classes of \<^verbatim>\<open>app/models\<close>, one record per table row. Field names are
  the column names of the source; several tables share a column name, so fields are
  always written qualified (\<open>Folder.user_id\<close>, \<open>PasswordEntry.user_id\<close>).
  A UUID is an opaque identifier; only equality on it is used.

  An attribute of a Python object can hold \<open>None\<close> whatever the column says, and
  \<open>PasswordEntryUpdate\<close> can assign \<open>None\<close> to \<open>name\<close>; \<open>nullable=False\<close> is a
  constraint the storage checks when the row is written. So \<open>PasswordEntry.name\<close> is
  an option here and the check is part of the storage model below. The names of users
  and folders come from schemas whose field is a plain \<open>str\<close>, so they are strings.
\<close>

type_synonym UUID = nat

record User =
  user_id :: UUID
  username :: string
  password_hash :: string

record Folder =
  folder_id :: UUID
  user_id :: UUID
  name :: string

record PasswordEntry =
  entry_id :: UUID
  user_id :: UUID
  folder_id :: "UUID option"
  name :: "string option"
  username :: "string option"
  password :: "string option"
  website_url :: "string option"
  "notes" :: "string option"

section \<open>Validation schemas (app/schemas)\<close>

record UserCreate =
  username :: string
  password :: string

text \<open>\<open>FolderCreate\<close> and \<open>FolderUpdate\<close> both inherit \<open>FolderBase\<close> unchanged.\<close>

record FolderBase =
  name :: string

record PasswordEntryCreate =
  name :: string
  username :: "string option"
  password :: "string option"
  website_url :: "string option"
  "notes" :: "string option"
  folder_id :: "UUID option"

text \<open>
  \<open>PasswordEntryUpdate\<close>: every field is \<open>Optional\<close> with default \<open>None\<close>, and pydantic
  remembers which fields the caller set. A field is therefore tri-state: \<open>None\<close> is
  "not set", \<open>Some None\<close> is "set to None", \<open>Some (Some v)\<close> is "set to v".
\<close>

record PasswordEntryUpdate =
  name :: "string option option"
  username :: "string option option"
  password :: "string option option"
  website_url :: "string option option"
  "notes" :: "string option option"
  folder_id :: "UUID option option"

text \<open>
  One item of the dict returned by \<open>model_dump(exclude_unset=True)\<close>: the attribute
  name together with its value.
\<close>

datatype attr_value =
    Attr_name "string option"
  | Attr_username "string option"
  | Attr_password "string option"
  | Attr_website_url "string option"
  | Attr_notes "string option"
  | Attr_folder_id "UUID option"

definition dump_field :: "('a \<Rightarrow> attr_value) \<Rightarrow> 'a option \<Rightarrow> attr_value list" where
  "dump_field mk v = (case v of None \<Rightarrow> [] | Some x \<Rightarrow> [mk x])"

text \<open>The set fields only, in the order the class declares them.\<close>

definition model_dump_exclude_unset :: "PasswordEntryUpdate \<Rightarrow> attr_value list" where
  "model_dump_exclude_unset entry_data =
     dump_field Attr_name (PasswordEntryUpdate.name entry_data) @
     dump_field Attr_username (PasswordEntryUpdate.username entry_data) @
     dump_field Attr_password (PasswordEntryUpdate.password entry_data) @
     dump_field Attr_website_url (PasswordEntryUpdate.website_url entry_data) @
     dump_field Attr_notes (PasswordEntryUpdate.notes entry_data) @
     dump_field Attr_folder_id (PasswordEntryUpdate.folder_id entry_data)"

text \<open>\<open>setattr(db_entry, field, value)\<close> on the mapped object.\<close>

fun setattr :: "attr_value \<Rightarrow> PasswordEntry \<Rightarrow> PasswordEntry" where
  "setattr (Attr_name v) e = e\<lparr>PasswordEntry.name := v\<rparr>"
| "setattr (Attr_username v) e = e\<lparr>PasswordEntry.username := v\<rparr>"
| "setattr (Attr_password v) e = e\<lparr>PasswordEntry.password := v\<rparr>"
| "setattr (Attr_website_url v) e = e\<lparr>PasswordEntry.website_url := v\<rparr>"
| "setattr (Attr_notes v) e = e\<lparr>PasswordEntry.notes := v\<rparr>"
| "setattr (Attr_folder_id v) e = e\<lparr>PasswordEntry.folder_id := v\<rparr>"

section \<open>Storage: the tables and their declared constraints\<close>

text \<open>
  The stored state is the three tables, rows in insertion order. The constraints are
  the ones the \<open>Column\<close> declarations state: primary keys, \<open>unique=True\<close> on
  \<open>users.username\<close>, \<open>nullable=False\<close>, and the three foreign keys with their
  \<open>ondelete\<close> actions (\<open>CASCADE\<close> towards users, \<open>SET NULL\<close> towards folders).
  A statement that violates one raises \<open>IntegrityError\<close>, a subclass of
  \<open>SQLAlchemyError\<close>.

  The \<open>String(n)\<close> columns bound the length of their values. The schemas enforce the
  same bound on every value but one before it reaches a service (\<open>username\<close> 50,
  folder \<open>name\<close> 100, entry \<open>name\<close> and \<open>username\<close> 100, \<open>website_url\<close> 500), so
  those are not checked again here. The exception is \<open>users.password_hash\<close>: the
  column is \<open>String(255)\<close> and \<open>UserCreate.password\<close> has a minimum length only. A
  longer value is refused when the row is written, with a \<open>DataError\<close>, before any
  constraint is looked at. The remaining constructors stand for the failures of the
  connection and of the session itself.
\<close>

record database =
  users :: "User list"
  folders :: "Folder list"
  password_entries :: "PasswordEntry list"

datatype SQLAlchemyError =
    IntegrityError string
  | DataError string
  | OperationalError string
  | InvalidRequestError string

definition user_ids :: "database \<Rightarrow> UUID set" where
  "user_ids d = set (map User.user_id (users d))"

definition folder_ids :: "database \<Rightarrow> UUID set" where
  "folder_ids d = set (map Folder.folder_id (folders d))"

definition entry_ids :: "database \<Rightarrow> UUID set" where
  "entry_ids d = set (map PasswordEntry.entry_id (password_entries d))"

definition insert_user :: "User \<Rightarrow> database \<Rightarrow> SQLAlchemyError + database" where
  "insert_user u d =
     (if 255 < length (User.password_hash u)
        then Inl (DataError ''value too long for type character varying(255)'')
      else if User.user_id u \<in> user_ids d then Inl (IntegrityError ''users_pkey'')
      else if User.username u \<in> set (map User.username (users d))
        then Inl (IntegrityError ''users_username_key'')
      else Inr (d\<lparr>users := users d @ [u]\<rparr>))"

definition insert_folder :: "Folder \<Rightarrow> database \<Rightarrow> SQLAlchemyError + database" where
  "insert_folder f d =
     (if Folder.folder_id f \<in> folder_ids d then Inl (IntegrityError ''folders_pkey'')
      else if Folder.user_id f \<notin> user_ids d
        then Inl (IntegrityError ''folders_user_id_fkey'')
      else Inr (d\<lparr>folders := folders d @ [f]\<rparr>))"

definition folder_fk_ok :: "database \<Rightarrow> UUID option \<Rightarrow> bool" where
  "folder_fk_ok d v = (case v of None \<Rightarrow> True | Some fid \<Rightarrow> fid \<in> folder_ids d)"

definition insert_entry :: "PasswordEntry \<Rightarrow> database \<Rightarrow> SQLAlchemyError + database" where
  "insert_entry e d =
     (if PasswordEntry.entry_id e \<in> entry_ids d
        then Inl (IntegrityError ''password_entries_pkey'')
      else if PasswordEntry.name e = None
        then Inl (IntegrityError ''password_entries_name_not_null'')
      else if PasswordEntry.user_id e \<notin> user_ids d
        then Inl (IntegrityError ''password_entries_user_id_fkey'')
      else if \<not> folder_fk_ok d (PasswordEntry.folder_id e)
        then Inl (IntegrityError ''password_entries_folder_id_fkey'')
      else Inr (d\<lparr>password_entries := password_entries d @ [e]\<rparr>))"

text \<open>\<open>UPDATE folders SET name = :name WHERE folder_id = :pk\<close>\<close>

definition update_folder_name :: "UUID \<Rightarrow> string \<Rightarrow> database \<Rightarrow> SQLAlchemyError + database" where
  "update_folder_name pk v d =
     Inr (d\<lparr>folders :=
            map (\<lambda>f. if Folder.folder_id f = pk then f\<lparr>Folder.name := v\<rparr> else f) (folders d)\<rparr>)"

text \<open>
  \<open>UPDATE password_entries SET <column> = :value WHERE entry_id = :pk\<close>. Only two of
  the assignable columns carry a constraint: \<open>name\<close> is \<open>NOT NULL\<close> and \<open>folder_id\<close>
  references \<open>folders\<close>.
\<close>

fun attr_ok :: "database \<Rightarrow> attr_value \<Rightarrow> SQLAlchemyError option" where
  "attr_ok d (Attr_name v) =
     (if v = None then Some (IntegrityError ''password_entries_name_not_null'') else None)"
| "attr_ok d (Attr_folder_id v) =
     (if folder_fk_ok d v then None
      else Some (IntegrityError ''password_entries_folder_id_fkey''))"
| "attr_ok d _ = None"

definition update_entry_attr :: "UUID \<Rightarrow> attr_value \<Rightarrow> database \<Rightarrow> SQLAlchemyError + database" where
  "update_entry_attr pk a d =
     (if pk \<notin> entry_ids d then Inr d
      else case attr_ok d a of
        Some err \<Rightarrow> Inl err
      | None \<Rightarrow> Inr (d\<lparr>password_entries :=
            map (\<lambda>e. if PasswordEntry.entry_id e = pk then setattr a e else e)
              (password_entries d)\<rparr>))"

text \<open>\<open>DELETE FROM password_entries WHERE entry_id = :pk\<close>\<close>

definition delete_entry_row :: "UUID \<Rightarrow> database \<Rightarrow> database" where
  "delete_entry_row pk d =
     d\<lparr>password_entries := filter (\<lambda>e. PasswordEntry.entry_id e \<noteq> pk) (password_entries d)\<rparr>"

text \<open>
  \<open>DELETE FROM folders WHERE folder_id = :pk\<close>, with \<open>ON DELETE SET NULL\<close> of
  \<open>password_entries.folder_id\<close> on the rows that still reference the folder.
\<close>

definition delete_folder_row :: "UUID \<Rightarrow> database \<Rightarrow> database" where
  "delete_folder_row pk d =
     d\<lparr>folders := filter (\<lambda>f. Folder.folder_id f \<noteq> pk) (folders d),
       password_entries :=
         map (\<lambda>e. if PasswordEntry.folder_id e = Some pk
                   then e\<lparr>PasswordEntry.folder_id := None\<rparr> else e)
           (password_entries d)\<rparr>"

text \<open>
  \<open>DELETE FROM users WHERE user_id = :pk\<close>, with \<open>ON DELETE CASCADE\<close> of
  \<open>folders.user_id\<close> and \<open>password_entries.user_id\<close>: the user's remaining folders go
  (each clearing the references to it) and so do the user's remaining entries.
\<close>

definition delete_user_row :: "UUID \<Rightarrow> database \<Rightarrow> database" where
  "delete_user_row pk d =
     (let gone = map Folder.folder_id (filter (\<lambda>f. Folder.user_id f = pk) (folders d));
          d1 = fold delete_folder_row gone d
      in d1\<lparr>users := filter (\<lambda>u. User.user_id u \<noteq> pk) (users d1),
            password_entries :=
              filter (\<lambda>e. PasswordEntry.user_id e \<noteq> pk) (password_entries d1)\<rparr>)"

section \<open>The session: unit of work, commit, rollback\<close>

text \<open>
  A \<open>Session\<close> holds the committed tables and the changes registered with it that no
  commit has written yet. \<open>commit\<close> flushes the pending changes in order as one
  transaction: either all of them reach the tables or none does. \<open>rollback\<close> drops
  what is pending.
\<close>

datatype change =
    InsertUser User
  | InsertFolder Folder
  | InsertEntry PasswordEntry
  | UpdateFolderName UUID string
  | UpdateEntryAttr UUID attr_value
  | DeleteUser UUID
  | DeleteFolder UUID
  | DeleteEntry UUID

record Session =
  stored :: database
  pending :: "change list"

fun apply_change :: "change \<Rightarrow> database \<Rightarrow> SQLAlchemyError + database" where
  "apply_change (InsertUser u) d = insert_user u d"
| "apply_change (InsertFolder f) d = insert_folder f d"
| "apply_change (InsertEntry e) d = insert_entry e d"
| "apply_change (UpdateFolderName pk v) d = update_folder_name pk v d"
| "apply_change (UpdateEntryAttr pk a) d = update_entry_attr pk a d"
| "apply_change (DeleteUser pk) d = Inr (delete_user_row pk d)"
| "apply_change (DeleteFolder pk) d = Inr (delete_folder_row pk d)"
| "apply_change (DeleteEntry pk) d = Inr (delete_entry_row pk d)"

fun flush :: "change list \<Rightarrow> database \<Rightarrow> SQLAlchemyError + database" where
  "flush [] d = Inr d"
| "flush (c # cs) d =
     (case apply_change c d of Inl err \<Rightarrow> Inl err | Inr d' \<Rightarrow> flush cs d')"

text \<open>
  Every call on the session inside a \<open>try\<close> block can raise a \<open>SQLAlchemyError\<close> for
  reasons outside the program (a lost connection, a timeout). The parameter \<open>F\<close> of
  the operations says which kind of call does so and with which error; \<open>no_faults\<close>
  is the storage that only fails on its own constraints. No service method makes two
  calls of the same kind, so a fault per kind is a fault per call.
\<close>

datatype session_call = Call_query | Call_add | Call_delete | Call_commit | Call_refresh

type_synonym faults = "session_call \<Rightarrow> SQLAlchemyError option"

definition no_faults :: faults where
  "no_faults = (\<lambda>c. None)"

text \<open>The outcome of a method: what it returns or raises, and the session afterwards.\<close>

type_synonym 'a outcome = "(SQLAlchemyError + 'a) \<times> Session"

definition returning :: "'a \<Rightarrow> Session \<Rightarrow> 'a outcome" where
  "returning v s = (Inr v, s)"

definition and_then ::
  "(Session \<Rightarrow> 'a outcome) \<Rightarrow> ('a \<Rightarrow> Session \<Rightarrow> 'b outcome) \<Rightarrow> Session \<Rightarrow> 'b outcome" where
  "and_then m k s = (case m s of (Inl err, s') \<Rightarrow> (Inl err, s') | (Inr v, s') \<Rightarrow> k v s')"

definition raising ::
  "faults \<Rightarrow> session_call \<Rightarrow> (Session \<Rightarrow> 'a outcome) \<Rightarrow> Session \<Rightarrow> 'a outcome" where
  "raising F c m s = (case F c of Some err \<Rightarrow> (Inl err, s) | None \<Rightarrow> m s)"

definition session_add :: "faults \<Rightarrow> change \<Rightarrow> Session \<Rightarrow> unit outcome" where
  "session_add F c =
     raising F Call_add (\<lambda>s. (Inr (), s\<lparr>pending := pending s @ [c]\<rparr>))"

definition session_commit :: "faults \<Rightarrow> Session \<Rightarrow> unit outcome" where
  "session_commit F =
     raising F Call_commit (\<lambda>s.
       case flush (pending s) (stored s) of
         Inl err \<Rightarrow> (Inl err, s)
       | Inr d \<Rightarrow> (Inr (), \<lparr>stored = d, pending = []\<rparr>))"

definition session_rollback :: "Session \<Rightarrow> Session" where
  "session_rollback s = s\<lparr>pending := []\<rparr>"

text \<open>
  \<open>refresh\<close> reloads the row of the object by primary key and raises
  \<open>InvalidRequestError\<close> when the row is not there.
\<close>

definition session_refresh ::
  "faults \<Rightarrow> (database \<Rightarrow> 'a list) \<Rightarrow> ('a \<Rightarrow> UUID) \<Rightarrow> UUID \<Rightarrow> Session \<Rightarrow> 'a outcome" where
  "session_refresh F table pk_of pk =
     raising F Call_refresh (\<lambda>s.
       case find (\<lambda>r. pk_of r = pk) (table (stored s)) of
         None \<Rightarrow> (Inl (InvalidRequestError ''Could not refresh instance''), s)
       | Some r \<Rightarrow> (Inr r, s))"

text \<open>\<open>query(...).filter(...).first()\<close> and \<open>.all()\<close>: reads of the stored rows.\<close>

definition query_first ::
  "faults \<Rightarrow> (database \<Rightarrow> 'a list) \<Rightarrow> ('a \<Rightarrow> bool) \<Rightarrow> Session \<Rightarrow> 'a option outcome" where
  "query_first F table P = raising F Call_query (\<lambda>s. (Inr (find P (table (stored s))), s))"

definition query_all ::
  "faults \<Rightarrow> (database \<Rightarrow> 'a list) \<Rightarrow> ('a \<Rightarrow> bool) \<Rightarrow> Session \<Rightarrow> 'a list outcome" where
  "query_all F table P = raising F Call_query (\<lambda>s. (Inr (filter P (table (stored s))), s))"

text \<open>
  \<open>Session.delete(obj)\<close> marks the object and, through every relationship of its class
  whose cascade includes \<open>delete\<close>, the objects that relationship loads.
  \<open>Folder.password_entries\<close> is declared with \<open>cascade="all, delete-orphan"\<close>, and so
  are \<open>User.folders\<close> and \<open>User.password_entries\<close>: the children are deleted by the
  session, each with a \<open>DELETE\<close> of its own, before the parent row.
\<close>

definition cascade_folder :: "database \<Rightarrow> UUID \<Rightarrow> change list" where
  "cascade_folder d fid =
     map (\<lambda>e. DeleteEntry (PasswordEntry.entry_id e))
       (filter (\<lambda>e. PasswordEntry.folder_id e = Some fid) (password_entries d))
     @ [DeleteFolder fid]"

definition cascade_user :: "database \<Rightarrow> UUID \<Rightarrow> change list" where
  "cascade_user d uid =
     concat (map (\<lambda>f. cascade_folder d (Folder.folder_id f))
       (filter (\<lambda>f. Folder.user_id f = uid) (folders d)))
     @ map (\<lambda>e. DeleteEntry (PasswordEntry.entry_id e))
       (filter (\<lambda>e. PasswordEntry.user_id e = uid) (password_entries d))
     @ [DeleteUser uid]"

definition session_delete ::
  "faults \<Rightarrow> (database \<Rightarrow> change list) \<Rightarrow> Session \<Rightarrow> unit outcome" where
  "session_delete F cascade =
     raising F Call_delete (\<lambda>s. (Inr (), s\<lparr>pending := pending s @ cascade (stored s)\<rparr>))"

text \<open>
  The handler every mutating method ends with:
  \<^verbatim>\<open>except SQLAlchemyError as e: self.db.rollback(); raise e\<close>
\<close>

definition except_rollback_raise :: "'a outcome \<Rightarrow> 'a outcome" where
  "except_rollback_raise r =
     (case r of (Inl err, s) \<Rightarrow> (Inl err, session_rollback s) | (Inr v, s) \<Rightarrow> (Inr v, s))"

section \<open>UserService\<close>


definition get_user_by_id :: "faults \<Rightarrow> UUID \<Rightarrow> Session \<Rightarrow> User option outcome" where
  "get_user_by_id F uid = query_first F users (\<lambda>u. User.user_id u = uid)"

definition get_user_by_username :: "faults \<Rightarrow> string \<Rightarrow> Session \<Rightarrow> User option outcome" where
  "get_user_by_username F n = query_first F users (\<lambda>u. User.username u = n)"

definition delete_user :: "faults \<Rightarrow> UUID \<Rightarrow> Session \<Rightarrow> bool outcome" where
  "delete_user F uid s =
     except_rollback_raise
       (and_then (get_user_by_id F uid) (\<lambda>db_user.
          case db_user of
            None \<Rightarrow> returning False
          | Some u \<Rightarrow>
              and_then (session_delete F (\<lambda>d. cascade_user d (User.user_id u))) (\<lambda>_.
              and_then (session_commit F) (\<lambda>_.
              returning True))) s)"

section \<open>FolderService\<close>


definition get_folder_by_id ::
  "faults \<Rightarrow> UUID \<Rightarrow> UUID \<Rightarrow> Session \<Rightarrow> Folder option outcome" where
  "get_folder_by_id F fid uid =
     query_first F folders (\<lambda>f. Folder.folder_id f = fid \<and> Folder.user_id f = uid)"

definition get_all_folders_for_user :: "faults \<Rightarrow> UUID \<Rightarrow> Session \<Rightarrow> Folder list outcome" where
  "get_all_folders_for_user F uid = query_all F folders (\<lambda>f. Folder.user_id f = uid)"

definition update_folder ::
  "faults \<Rightarrow> UUID \<Rightarrow> UUID \<Rightarrow> FolderBase \<Rightarrow> Session \<Rightarrow> Folder option outcome" where
  "update_folder F fid uid folder_data s =
     except_rollback_raise
       (and_then (get_folder_by_id F fid uid) (\<lambda>db_folder.
          case db_folder of
            None \<Rightarrow> returning None
          | Some f \<Rightarrow>
              and_then (\<lambda>s. (Inr (), s\<lparr>pending := pending s @
                  [UpdateFolderName (Folder.folder_id f) (FolderBase.name folder_data)]\<rparr>)) (\<lambda>_.
              and_then (session_commit F) (\<lambda>_.
              and_then (session_refresh F folders Folder.folder_id (Folder.folder_id f)) (\<lambda>r.
              returning (Some r))))) s)"

definition delete_folder :: "faults \<Rightarrow> UUID \<Rightarrow> UUID \<Rightarrow> Session \<Rightarrow> bool outcome" where
  "delete_folder F fid uid s =
     except_rollback_raise
       (and_then (get_folder_by_id F fid uid) (\<lambda>db_folder.
          case db_folder of
            None \<Rightarrow> returning False
          | Some f \<Rightarrow>
              and_then (session_delete F (\<lambda>d. cascade_folder d (Folder.folder_id f))) (\<lambda>_.
              and_then (session_commit F) (\<lambda>_.
              returning True))) s)"

section \<open>PasswordEntryService\<close>


definition get_entry_by_id ::
  "faults \<Rightarrow> UUID \<Rightarrow> UUID \<Rightarrow> Session \<Rightarrow> PasswordEntry option outcome" where
  "get_entry_by_id F eid uid =
     query_first F password_entries
       (\<lambda>e. PasswordEntry.entry_id e = eid \<and> PasswordEntry.user_id e = uid)"

text \<open>
  The second \<open>filter\<close> is added only when \<open>folder_id is not None\<close>; in SQL a \<open>NULL\<close>
  folder reference equals no folder id.
\<close>

definition get_all_entries_for_user ::
  "faults \<Rightarrow> UUID \<Rightarrow> UUID option \<Rightarrow> Session \<Rightarrow> PasswordEntry list outcome" where
  "get_all_entries_for_user F uid fid =
     (case fid of
        None \<Rightarrow> query_all F password_entries (\<lambda>e. PasswordEntry.user_id e = uid)
      | Some f \<Rightarrow> query_all F password_entries
          (\<lambda>e. PasswordEntry.user_id e = uid \<and> PasswordEntry.folder_id e = Some f))"

text \<open>
  \<^verbatim>\<open>for field, value in update_data.items(): setattr(db_entry, field, value)\<close>
  Each assignment marks the attribute of the persistent object as changed; the commit
  writes it to the row of that primary key.
\<close>

fun setattr_items :: "UUID \<Rightarrow> attr_value list \<Rightarrow> Session \<Rightarrow> Session" where
  "setattr_items pk [] s = s"
| "setattr_items pk (a # as) s =
     setattr_items pk as (s\<lparr>pending := pending s @ [UpdateEntryAttr pk a]\<rparr>)"

definition update_entry ::
  "faults \<Rightarrow> UUID \<Rightarrow> UUID \<Rightarrow> PasswordEntryUpdate \<Rightarrow> Session \<Rightarrow> PasswordEntry option outcome" where
  "update_entry F eid uid entry_data s =
     except_rollback_raise
       (and_then (get_entry_by_id F eid uid) (\<lambda>db_entry.
          case db_entry of
            None \<Rightarrow> returning None
          | Some e \<Rightarrow>
              (let update_data = model_dump_exclude_unset entry_data
               in and_then (\<lambda>s. (Inr (),
                      setattr_items (PasswordEntry.entry_id e) update_data s)) (\<lambda>_.
                  and_then (session_commit F) (\<lambda>_.
                  and_then (session_refresh F password_entries PasswordEntry.entry_id
                      (PasswordEntry.entry_id e)) (\<lambda>r.
                  returning (Some r)))))) s)"


section \<open>The mutating operations as one family\<close>




section \<open>A small vault\<close>

text \<open>
  Two users; alice owns the folder Work with the entry Gmail in it, bob owns the folder
  Banking. Nothing is pending. The concrete statements below are evaluated on it.
\<close>

definition alice :: User where
  "alice = \<lparr>User.user_id = 1, User.username = ''alice'', User.password_hash = ''secret1''\<rparr>"

definition bob :: User where
  "bob = \<lparr>User.user_id = 2, User.username = ''bob'', User.password_hash = ''secret2''\<rparr>"

definition work :: Folder where
  "work = \<lparr>Folder.folder_id = 10, Folder.user_id = 1, Folder.name = ''Work''\<rparr>"

definition banking :: Folder where
  "banking = \<lparr>Folder.folder_id = 20, Folder.user_id = 2, Folder.name = ''Banking''\<rparr>"

definition gmail :: PasswordEntry where
  "gmail = \<lparr>PasswordEntry.entry_id = 100, PasswordEntry.user_id = 1,
     PasswordEntry.folder_id = Some 10, PasswordEntry.name = Some ''Gmail'',
     PasswordEntry.username = Some ''alice@example.com'', PasswordEntry.password = Some ''pw'',
     PasswordEntry.website_url = None, PasswordEntry.notes = None\<rparr>"

definition vault :: Session where
  "vault = \<lparr>stored = \<lparr>users = [alice, bob], folders = [work, banking],
                        password_entries = [gmail]\<rparr>,
            pending = []\<rparr>"

text \<open>A connection that drops exactly at the calls of kind \<open>c\<close>.\<close>

definition failing_at :: "session_call \<Rightarrow> faults" where
  "failing_at c = (\<lambda>c'. if c' = c then Some (OperationalError ''connection lost'') else None)"

text \<open>
  The vault before any folder exists: the two users and one entry of alice's that is in
  no folder.
\<close>

definition inbox :: PasswordEntry where
  "inbox = \<lparr>PasswordEntry.entry_id = 100, PasswordEntry.user_id = 1,
     PasswordEntry.folder_id = None, PasswordEntry.name = Some ''Gmail'',
     PasswordEntry.username = None, PasswordEntry.password = None,
     PasswordEntry.website_url = None, PasswordEntry.notes = None\<rparr>"

definition plain_vault :: Session where
  "plain_vault = \<lparr>stored = \<lparr>users = [alice, bob], folders = [], password_entries = [inbox]\<rparr>,
                  pending = []\<rparr>"

section \<open>What a failed mutation leaves behind\<close>



section \<open>Basic facts\<close>

lemmas session_defs = raising_def and_then_def returning_def session_add_def
  session_commit_def session_rollback_def session_refresh_def query_first_def query_all_def
  session_delete_def except_rollback_raise_def

lemmas vault_defs = vault_def alice_def bob_def work_def banking_def gmail_def
  plain_vault_def inbox_def

lemma find_None_iff_all: "find P xs = None \<longleftrightarrow> (\<forall>x\<in>set xs. \<not> P x)"
  by (induction xs) auto

section \<open>Claims\<close>

text \<open>
  C1. Deleting a folder that holds entries should remove the folder, return true and
  keep every entry with its folder reference cleared. On the vault, \<open>delete_folder\<close>
  of alice's folder Work returns true and removes the folder, but the entry Gmail is
  gone from the table: the session deletes the children of the folder through the
  \<open>delete\<close> cascade of \<open>Folder.password_entries\<close> before the folder row, so the
  \<open>SET NULL\<close> of the foreign key finds nothing left to clear. The second conjunct is
  what the foreign key alone does with the same row (the entry kept, its folder
  reference cleared), which is the behaviour the docstring of \<open>delete_folder\<close> states.
\<close>

theorem delete_folder_deletes_entries:
  "delete_folder no_faults 10 1 vault =
     (Inr True, \<lparr>stored = \<lparr>users = [alice, bob], folders = [banking], password_entries = []\<rparr>,
                 pending = []\<rparr>)
   \<and> flush [DeleteFolder 10] (stored vault) =
     Inr \<lparr>users = [alice, bob], folders = [banking],
          password_entries = [gmail\<lparr>PasswordEntry.folder_id := None\<rparr>]\<rparr>"
  by (simp add: delete_folder_def get_folder_by_id_def session_defs cascade_folder_def
      no_faults_def delete_entry_row_def delete_folder_row_def vault_defs)

text \<open>
  C2. With entry ids unique: an entry stored under another owner and an entry id that
  is not stored give the caller \<open>u2\<close> the same outcome of \<open>get_entry_by_id\<close>, whatever
  the storage does, and when the query itself does not fail that outcome is the absent
  result \<open>None\<close>. Independently of the entries, with folder ids unique the same holds
  for \<open>get_folder_by_id\<close>. Each half has its own hypotheses, on its own table only.
\<close>

theorem get_by_id_hides_foreign_rows:
  "(distinct (map PasswordEntry.entry_id (password_entries (stored s)))
      \<and> e \<in> set (password_entries (stored s)) \<and> PasswordEntry.user_id e \<noteq> u2
      \<and> eid' \<notin> entry_ids (stored s)
    \<longrightarrow> get_entry_by_id F (PasswordEntry.entry_id e) u2 s = get_entry_by_id F eid' u2 s
        \<and> (F Call_query = None \<longrightarrow>
              get_entry_by_id F (PasswordEntry.entry_id e) u2 s = (Inr None, s)))
   \<and> (distinct (map Folder.folder_id (folders (stored s)))
      \<and> f \<in> set (folders (stored s)) \<and> Folder.user_id f \<noteq> u2
      \<and> fid' \<notin> folder_ids (stored s)
    \<longrightarrow> get_folder_by_id F (Folder.folder_id f) u2 s = get_folder_by_id F fid' u2 s
        \<and> (F Call_query = None \<longrightarrow>
              get_folder_by_id F (Folder.folder_id f) u2 s = (Inr None, s)))"
proof (intro conjI impI; elim conjE)
  assume d: "distinct (map PasswordEntry.entry_id (password_entries (stored s)))"
    and m: "e \<in> set (password_entries (stored s))" and o: "PasswordEntry.user_id e \<noteq> u2"
    and n: "eid' \<notin> entry_ids (stored s)"
  have e1: "find (\<lambda>x. PasswordEntry.entry_id x = PasswordEntry.entry_id e
                     \<and> PasswordEntry.user_id x = u2) (password_entries (stored s)) = None"
    using d m o by (auto simp: find_None_iff_all distinct_map inj_on_def)
  have e2: "find (\<lambda>x. PasswordEntry.entry_id x = eid' \<and> PasswordEntry.user_id x = u2)
      (password_entries (stored s)) = None"
    using n by (auto simp: find_None_iff_all entry_ids_def)
  show "get_entry_by_id F (PasswordEntry.entry_id e) u2 s = get_entry_by_id F eid' u2 s"
    by (simp add: get_entry_by_id_def query_first_def raising_def e1 e2 split: option.split)
  show "get_entry_by_id F (PasswordEntry.entry_id e) u2 s = (Inr None, s)"
    if "F Call_query = None"
    using that by (simp add: get_entry_by_id_def query_first_def raising_def e1)
next
  assume d: "distinct (map Folder.folder_id (folders (stored s)))"
    and m: "f \<in> set (folders (stored s))" and o: "Folder.user_id f \<noteq> u2"
    and n: "fid' \<notin> folder_ids (stored s)"
  have f1: "find (\<lambda>x. Folder.folder_id x = Folder.folder_id f \<and> Folder.user_id x = u2)
      (folders (stored s)) = None"
    using d m o by (auto simp: find_None_iff_all distinct_map inj_on_def)
  have f2: "find (\<lambda>x. Folder.folder_id x = fid' \<and> Folder.user_id x = u2)
      (folders (stored s)) = None"
    using n by (auto simp: find_None_iff_all folder_ids_def)
  show "get_folder_by_id F (Folder.folder_id f) u2 s = get_folder_by_id F fid' u2 s"
    by (simp add: get_folder_by_id_def query_first_def raising_def f1 f2 split: option.split)
  show "get_folder_by_id F (Folder.folder_id f) u2 s = (Inr None, s)"
    if "F Call_query = None"
    using that by (simp add: get_folder_by_id_def query_first_def raising_def f1)
qed

theorem get_by_id_hides_foreign_rows_witness:
  "get_entry_by_id no_faults 100 2 plain_vault = get_entry_by_id no_faults 999 2 plain_vault
   \<and> get_entry_by_id no_faults 100 2 plain_vault = (Inr None, plain_vault)
   \<and> get_entry_by_id no_faults 100 1 plain_vault = (Inr (Some inbox), plain_vault)
   \<and> get_folder_by_id no_faults 10 2 vault = get_folder_by_id no_faults 999 2 vault
   \<and> get_folder_by_id no_faults 10 2 vault = (Inr None, vault)
   \<and> get_folder_by_id no_faults 10 1 vault = (Inr (Some work), vault)"
proof -
  have ent: "distinct (map PasswordEntry.entry_id (password_entries (stored plain_vault)))
      \<and> inbox \<in> set (password_entries (stored plain_vault)) \<and> PasswordEntry.user_id inbox \<noteq> 2
      \<and> 999 \<notin> entry_ids (stored plain_vault)"
    by (simp add: vault_defs entry_ids_def)
  have fol: "distinct (map Folder.folder_id (folders (stored vault)))
      \<and> work \<in> set (folders (stored vault)) \<and> Folder.user_id work \<noteq> 2
      \<and> 999 \<notin> folder_ids (stored vault)"
    by (simp add: vault_defs folder_ids_def)
  have ids: "PasswordEntry.entry_id inbox = 100" "Folder.folder_id work = 10"
    by (simp_all add: vault_defs)
  have nf: "no_faults Call_query = None"
    by (simp add: no_faults_def)
  have own: "get_entry_by_id no_faults 100 1 plain_vault = (Inr (Some inbox), plain_vault)"
    "get_folder_by_id no_faults 10 1 vault = (Inr (Some work), vault)"
    by (simp_all add: get_entry_by_id_def get_folder_by_id_def query_first_def raising_def
        no_faults_def vault_defs)
  from get_by_id_hides_foreign_rows [of plain_vault inbox 2 999 no_faults, unfolded ids] ent nf
  have 1: "get_entry_by_id no_faults 100 2 plain_vault = get_entry_by_id no_faults 999 2 plain_vault"
    and 2: "get_entry_by_id no_faults 100 2 plain_vault = (Inr None, plain_vault)"
    by blast+
  from get_by_id_hides_foreign_rows [of vault _ 2 _ no_faults work 999, unfolded ids] fol nf
  have 3: "get_folder_by_id no_faults 10 2 vault = get_folder_by_id no_faults 999 2 vault"
    and 4: "get_folder_by_id no_faults 10 2 vault = (Inr None, vault)"
    by blast+
  from 1 2 own(1) 3 4 own(2) show ?thesis
    by (intro conjI)
qed




lemma find_distinct_pk:
  assumes "distinct (map pk xs)" and "x \<in> set xs"
  shows "find (\<lambda>r. pk r = pk x) xs = Some x"
  using assms by (induction xs) auto

lemma find_distinct_pk_and:
  assumes "distinct (map pk xs)" and "x \<in> set xs" and "Q x"
  shows "find (\<lambda>r. pk r = pk x \<and> Q r) xs = Some x"
  using assms by (induction xs) auto

lemma find_Some_mem: "find P xs = Some x \<Longrightarrow> x \<in> set xs \<and> P x"
  by (induction xs) (auto split: if_splits)

text \<open>
  C7. When the query does not fail, \<open>get_all_entries_for_user\<close> with a folder id
  returns exactly the stored entries whose owner is the user and whose folder reference
  is that folder, in table order, and without a folder id exactly the stored entries of
  the user, whatever their folder reference; the session is left as it was.
\<close>

theorem get_all_entries_exact:
  assumes "F Call_query = None"
  shows "get_all_entries_for_user F uid (Some fid) s =
       (Inr (filter (\<lambda>e. PasswordEntry.user_id e = uid \<and> PasswordEntry.folder_id e = Some fid)
              (password_entries (stored s))), s)
     \<and> get_all_entries_for_user F uid None s =
       (Inr (filter (\<lambda>e. PasswordEntry.user_id e = uid) (password_entries (stored s))), s)"
  using assms by (simp add: get_all_entries_for_user_def query_all_def raising_def)

theorem get_all_entries_exact_witness:
  "get_all_entries_for_user no_faults 1 (Some 10) vault = (Inr [gmail], vault)
   \<and> get_all_entries_for_user no_faults 1 (Some 20) vault = (Inr [], vault)
   \<and> get_all_entries_for_user no_faults 1 None vault = (Inr [gmail], vault)
   \<and> get_all_entries_for_user no_faults 2 None vault = (Inr [], vault)"
proof -
  have nf: "no_faults Call_query = None"
    by (simp add: no_faults_def)
  show ?thesis
    using get_all_entries_exact [of no_faults 1 10 vault, OF nf]
      get_all_entries_exact [of no_faults 1 20 vault, OF nf]
      get_all_entries_exact [of no_faults 2 10 vault, OF nf]
    by (simp add: vault_defs)
qed

text \<open>
  C8. With nothing pending, no outside failure and unique folder ids: when the fetch
  under the (folder id and owner id) filter finds nothing, \<open>update_folder\<close> returns
  \<open>None\<close> and the session is exactly as before; when it finds the folder \<open>f\<close>, the
  call returns \<open>f\<close> with the new name and the same id and owner, and the stored state
  differs from the old one only in the name of the folder row with that id.
\<close>

theorem update_folder_checked:
  assumes "pending s = []"
    and "F Call_query = None" and "F Call_commit = None" and "F Call_refresh = None"
    and "distinct (map Folder.folder_id (folders (stored s)))"
  shows "(get_folder_by_id F fid uid s = (Inr None, s) \<longrightarrow>
            update_folder F fid uid folder_data s = (Inr None, s))
     \<and> (\<forall>f. get_folder_by_id F fid uid s = (Inr (Some f), s) \<longrightarrow>
            Folder.folder_id f = fid \<and> Folder.user_id f = uid
          \<and> update_folder F fid uid folder_data s =
              (Inr (Some (f\<lparr>Folder.name := FolderBase.name folder_data\<rparr>)),
               \<lparr>stored = (stored s)\<lparr>folders :=
                    map (\<lambda>g. if Folder.folder_id g = fid
                              then g\<lparr>Folder.name := FolderBase.name folder_data\<rparr> else g)
                      (folders (stored s))\<rparr>,
                 pending = []\<rparr>))"
proof (intro conjI allI impI)
  assume "get_folder_by_id F fid uid s = (Inr None, s)"
  then show "update_folder F fid uid folder_data s = (Inr None, s)"
    using assms(1) by (simp add: update_folder_def session_defs)
next
  fix f
  assume g: "get_folder_by_id F fid uid s = (Inr (Some f), s)"
  then have fnd: "find (\<lambda>f. Folder.folder_id f = fid \<and> Folder.user_id f = uid)
      (folders (stored s)) = Some f"
    using assms(2) by (simp add: get_folder_by_id_def query_first_def raising_def)
  then have mem: "f \<in> set (folders (stored s))" and id: "Folder.folder_id f = fid"
    and own: "Folder.user_id f = uid"
    by (auto dest: find_Some_mem)
  show "Folder.folder_id f = fid" by (rule id)
  show "Folder.user_id f = uid" by (rule own)
  let ?rows = "map (\<lambda>g. if Folder.folder_id g = fid
                         then g\<lparr>Folder.name := FolderBase.name folder_data\<rparr> else g)
                 (folders (stored s))"
  let ?f' = "f\<lparr>Folder.name := FolderBase.name folder_data\<rparr>"
  have d': "distinct (map Folder.folder_id ?rows)"
    using assms(5) by (simp add: comp_def if_distrib cong: if_cong)
  have mem': "?f' \<in> set ?rows"
    using mem id by force
  have "find (\<lambda>r. Folder.folder_id r = Folder.folder_id ?f') ?rows = Some ?f'"
    using d' mem' by (rule find_distinct_pk)
  then have rf: "find (\<lambda>r. Folder.folder_id r = fid) ?rows = Some ?f'"
    using id by simp
  show "update_folder F fid uid folder_data s =
          (Inr (Some ?f'), \<lparr>stored = (stored s)\<lparr>folders := ?rows\<rparr>, pending = []\<rparr>)"
    using assms(1-4) g id
    by (simp add: update_folder_def session_defs update_folder_name_def rf)
qed

theorem update_folder_checked_witness:
  "update_folder no_faults 10 2 \<lparr>FolderBase.name = ''Office''\<rparr> vault = (Inr None, vault)
   \<and> update_folder no_faults 10 1 \<lparr>FolderBase.name = ''Office''\<rparr> vault =
       (Inr (Some \<lparr>Folder.folder_id = 10, Folder.user_id = 1, Folder.name = ''Office''\<rparr>),
        \<lparr>stored = \<lparr>users = [alice, bob],
                    folders = [\<lparr>Folder.folder_id = 10, Folder.user_id = 1,
                                 Folder.name = ''Office''\<rparr>, banking],
                    password_entries = [gmail]\<rparr>,
          pending = []\<rparr>)"
proof -
  have a: "pending vault = []" "no_faults Call_query = None" "no_faults Call_commit = None"
    "no_faults Call_refresh = None" "distinct (map Folder.folder_id (folders (stored vault)))"
    by (simp_all add: vault_defs no_faults_def)
  have miss: "get_folder_by_id no_faults 10 2 vault = (Inr None, vault)"
    and hit: "get_folder_by_id no_faults 10 1 vault = (Inr (Some work), vault)"
    by (simp_all add: get_folder_by_id_def query_first_def raising_def no_faults_def vault_defs)
  from update_folder_checked [of vault no_faults 10 2 "\<lparr>FolderBase.name = ''Office''\<rparr>", OF a] miss
  have 1: "update_folder no_faults 10 2 \<lparr>FolderBase.name = ''Office''\<rparr> vault = (Inr None, vault)"
    by blast
  from update_folder_checked [of vault no_faults 10 1 "\<lparr>FolderBase.name = ''Office''\<rparr>", OF a] hit
  have "update_folder no_faults 10 1 \<lparr>FolderBase.name = ''Office''\<rparr> vault =
      (Inr (Some (work\<lparr>Folder.name := FolderBase.name \<lparr>FolderBase.name = ''Office''\<rparr>\<rparr>)),
       \<lparr>stored = (stored vault)\<lparr>folders :=
            map (\<lambda>g. if Folder.folder_id g = 10
                      then g\<lparr>Folder.name := FolderBase.name \<lparr>FolderBase.name = ''Office''\<rparr>\<rparr> else g)
              (folders (stored vault))\<rparr>,
         pending = []\<rparr>)"
    by blast
  then have 2: "update_folder no_faults 10 1 \<lparr>FolderBase.name = ''Office''\<rparr> vault =
       (Inr (Some \<lparr>Folder.folder_id = 10, Folder.user_id = 1, Folder.name = ''Office''\<rparr>),
        \<lparr>stored = \<lparr>users = [alice, bob],
                    folders = [\<lparr>Folder.folder_id = 10, Folder.user_id = 1,
                                 Folder.name = ''Office''\<rparr>, banking],
                    password_entries = [gmail]\<rparr>,
          pending = []\<rparr>)"
    by (simp add: vault_defs)
  from 1 2 show ?thesis by (rule conjI)
qed

text \<open>
  C10. With nothing pending, no outside failure and unique entry ids: for a stored
  entry \<open>e\<close> of the caller and a payload in which no field was set (its dump is empty),
  \<open>update_entry\<close> returns \<open>e\<close> itself, not \<open>None\<close>, and the session with all of its
  stored rows is exactly as before.
\<close>

theorem update_entry_nothing_set:
  assumes "pending s = []"
    and "F Call_query = None" and "F Call_commit = None" and "F Call_refresh = None"
    and "distinct (map PasswordEntry.entry_id (password_entries (stored s)))"
    and "e \<in> set (password_entries (stored s))"
    and "PasswordEntry.user_id e = uid"
    and "PasswordEntryUpdate.name entry_data = None"
    and "PasswordEntryUpdate.username entry_data = None"
    and "PasswordEntryUpdate.password entry_data = None"
    and "PasswordEntryUpdate.website_url entry_data = None"
    and "PasswordEntryUpdate.notes entry_data = None"
    and "PasswordEntryUpdate.folder_id entry_data = None"
  shows "update_entry F (PasswordEntry.entry_id e) uid entry_data s = (Inr (Some e), s)"
proof -
  have pk: "find (\<lambda>r. PasswordEntry.entry_id r = PasswordEntry.entry_id e)
      (password_entries (stored s)) = Some e"
    using assms(5,6) by (rule find_distinct_pk)
  have own: "find (\<lambda>r. PasswordEntry.entry_id r = PasswordEntry.entry_id e
                      \<and> PasswordEntry.user_id r = uid) (password_entries (stored s)) = Some e"
    using assms(5,6,7) by (rule find_distinct_pk_and)
  have dump: "model_dump_exclude_unset entry_data = []"
    using assms(8-13) by (simp add: model_dump_exclude_unset_def dump_field_def)
  show ?thesis
    using assms(1-4)
    by (simp add: update_entry_def get_entry_by_id_def session_defs own pk dump)
qed

theorem update_entry_nothing_set_witness:
  "update_entry no_faults 100 1
     \<lparr>PasswordEntryUpdate.name = None, PasswordEntryUpdate.username = None,
      PasswordEntryUpdate.password = None, PasswordEntryUpdate.website_url = None,
      PasswordEntryUpdate.notes = None, PasswordEntryUpdate.folder_id = None\<rparr> vault
   = (Inr (Some gmail), vault)
   \<and> PasswordEntry.folder_id gmail = Some 10"
proof -
  have a: "pending vault = []" "no_faults Call_query = None" "no_faults Call_commit = None"
    "no_faults Call_refresh = None"
    "distinct (map PasswordEntry.entry_id (password_entries (stored vault)))"
    "gmail \<in> set (password_entries (stored vault))"
    "PasswordEntry.user_id gmail = 1"
    by (simp_all add: vault_defs no_faults_def)
  have id: "PasswordEntry.entry_id gmail = 100" and fd: "PasswordEntry.folder_id gmail = Some 10"
    by (simp_all add: gmail_def)
  from update_entry_nothing_set [of vault no_faults gmail 1 "\<lparr>PasswordEntryUpdate.name = None,
      PasswordEntryUpdate.username = None, PasswordEntryUpdate.password = None,
      PasswordEntryUpdate.website_url = None, PasswordEntryUpdate.notes = None,
      PasswordEntryUpdate.folder_id = None\<rparr>", OF a] fd
  show ?thesis by (simp add: id)
qed














lemma flush_append:
  "flush (xs @ ys) d = (case flush xs d of Inl err \<Rightarrow> Inl err | Inr d' \<Rightarrow> flush ys d')"
  by (induction xs arbitrary: d) (simp_all split: sum.split)

lemma flush_child_deletes:
  assumes "\<forall>c\<in>set cs. \<exists>pk. c = DeleteEntry pk \<or> c = DeleteFolder pk"
  shows "\<exists>d'. flush cs d = Inr d' \<and> users d' = users d"
  using assms
proof (induction cs arbitrary: d)
  case Nil
  show ?case by simp
next
  case (Cons c cs)
  from Cons.prems obtain pk where c: "c = DeleteEntry pk \<or> c = DeleteFolder pk"
    by auto
  from Cons.prems have rest: "\<forall>c\<in>set cs. \<exists>pk. c = DeleteEntry pk \<or> c = DeleteFolder pk"
    by simp
  from c show ?case
  proof
    assume "c = DeleteEntry pk"
    then show ?thesis
      using Cons.IH [OF rest, of "delete_entry_row pk d"] by (simp add: delete_entry_row_def)
  next
    assume "c = DeleteFolder pk"
    then show ?thesis
      using Cons.IH [OF rest, of "delete_folder_row pk d"] by (simp add: delete_folder_row_def)
  qed
qed

lemma cascade_user_shape:
  "\<exists>cs. cascade_user d uid = cs @ [DeleteUser uid]
        \<and> (\<forall>c\<in>set cs. \<exists>pk. c = DeleteEntry pk \<or> c = DeleteFolder pk)"
  by (rule exI [of _ "concat (map (\<lambda>f. cascade_folder d (Folder.folder_id f))
         (filter (\<lambda>f. Folder.user_id f = uid) (folders d)))
       @ map (\<lambda>e. DeleteEntry (PasswordEntry.entry_id e))
         (filter (\<lambda>e. PasswordEntry.user_id e = uid) (password_entries d))"])
    (auto simp: cascade_user_def cascade_folder_def)

lemma fold_delete_folder_row_users: "users (fold delete_folder_row ids d) = users d"
  by (induction ids arbitrary: d) (simp_all add: delete_folder_row_def)

lemma fold_delete_folder_row_folders:
  "folders (fold delete_folder_row ids d) =
     filter (\<lambda>f. Folder.folder_id f \<notin> set ids) (folders d)"
proof (induction ids arbitrary: d)
  case Nil
  show ?case by simp
next
  case (Cons a ids)
  have "filter (\<lambda>f. Folder.folder_id f \<notin> set ids) (filter (\<lambda>f. Folder.folder_id f \<noteq> a) (folders d))
      = filter (\<lambda>f. Folder.folder_id f \<notin> set (a # ids)) (folders d)"
    by (induction "folders d") (auto intro: filter_cong)
  then show ?case
    using Cons.IH [of "delete_folder_row a d"] by (simp add: delete_folder_row_def)
qed

lemma delete_user_row_users:
  "users (delete_user_row uid d) = filter (\<lambda>u. User.user_id u \<noteq> uid) (users d)"
  by (simp add: delete_user_row_def Let_def fold_delete_folder_row_users)

lemma delete_user_row_folders:
  "\<forall>f\<in>set (folders (delete_user_row uid d)). Folder.user_id f \<noteq> uid"
  by (auto simp: delete_user_row_def Let_def fold_delete_folder_row_folders)

lemma delete_user_row_entries:
  "\<forall>e\<in>set (password_entries (delete_user_row uid d)). PasswordEntry.user_id e \<noteq> uid"
  by (simp add: delete_user_row_def Let_def)

lemma flush_cascade_user:
  "\<exists>d'. flush (cascade_user d uid) d = Inr d'
     \<and> users d' = filter (\<lambda>u. User.user_id u \<noteq> uid) (users d)
     \<and> (\<forall>f\<in>set (folders d'). Folder.user_id f \<noteq> uid)
     \<and> (\<forall>e\<in>set (password_entries d'). PasswordEntry.user_id e \<noteq> uid)"
proof -
  obtain cs where cs: "cascade_user d uid = cs @ [DeleteUser uid]"
    and del: "\<forall>c\<in>set cs. \<exists>pk. c = DeleteEntry pk \<or> c = DeleteFolder pk"
    using cascade_user_shape by blast
  obtain d2 where d2: "flush cs d = Inr d2" and u2: "users d2 = users d"
    using flush_child_deletes [OF del] by blast
  have "flush (cascade_user d uid) d = Inr (delete_user_row uid d2)"
    by (simp add: cs flush_append d2)
  then show ?thesis
    using delete_user_row_users [of uid d2] delete_user_row_folders [of uid d2]
      delete_user_row_entries [of uid d2] u2
    by (intro exI [of _ "delete_user_row uid d2"]) simp
qed

text \<open>
  C4. With nothing pending and a query that does not fail: \<open>delete_user\<close> of an id
  that no stored user has returns \<open>False\<close> and leaves the session as it was. For the id
  of a stored user, when neither the delete nor the commit fails from outside, it
  returns \<open>True\<close>, and the one commit leaves a database whose users are the old ones
  without that id and in which no folder and no entry has that owner; when the commit
  fails, the error is raised and the session is as before the call, the user, the
  folders and the entries all still stored.
\<close>

theorem delete_user_cascades:
  assumes "pending s = []" and "F Call_query = None"
  shows "(uid \<notin> user_ids (stored s) \<longrightarrow> delete_user F uid s = (Inr False, s))
    \<and> (uid \<in> user_ids (stored s) \<and> F Call_delete = None \<and> F Call_commit = None \<longrightarrow>
         (\<exists>d. delete_user F uid s = (Inr True, \<lparr>stored = d, pending = []\<rparr>)
            \<and> users d = filter (\<lambda>u. User.user_id u \<noteq> uid) (users (stored s))
            \<and> uid \<notin> user_ids d
            \<and> (\<forall>f\<in>set (folders d). Folder.user_id f \<noteq> uid)
            \<and> (\<forall>e\<in>set (password_entries d). PasswordEntry.user_id e \<noteq> uid)))
    \<and> (uid \<in> user_ids (stored s) \<and> F Call_delete = None \<longrightarrow>
         (\<forall>err. F Call_commit = Some err \<longrightarrow> delete_user F uid s = (Inl err, s)))"
proof (intro conjI impI allI)
  assume "uid \<notin> user_ids (stored s)"
  then have "find (\<lambda>u. User.user_id u = uid) (users (stored s)) = None"
    by (auto simp: find_None_iff_all user_ids_def)
  then show "delete_user F uid s = (Inr False, s)"
    using assms by (simp add: delete_user_def get_user_by_id_def session_defs)
next
  assume a: "uid \<in> user_ids (stored s) \<and> F Call_delete = None \<and> F Call_commit = None"
  then obtain u where u: "find (\<lambda>u. User.user_id u = uid) (users (stored s)) = Some u"
    using find_None_iff_all [of "\<lambda>u. User.user_id u = uid" "users (stored s)"]
    by (cases "find (\<lambda>u. User.user_id u = uid) (users (stored s))") (auto simp: user_ids_def)
  then have uid: "User.user_id u = uid"
    using find_Some_mem by fastforce
  obtain d where fl: "flush (cascade_user (stored s) uid) (stored s) = Inr d"
    and us: "users d = filter (\<lambda>u. User.user_id u \<noteq> uid) (users (stored s))"
    and fs: "\<forall>f\<in>set (folders d). Folder.user_id f \<noteq> uid"
    and es: "\<forall>e\<in>set (password_entries d). PasswordEntry.user_id e \<noteq> uid"
    using flush_cascade_user [of "stored s" uid] by blast
  have run: "delete_user F uid s = (Inr True, \<lparr>stored = d, pending = []\<rparr>)"
    using assms a by (simp add: delete_user_def get_user_by_id_def session_defs u uid fl)
  have gone: "uid \<notin> user_ids d"
    by (auto simp: user_ids_def us)
  show "\<exists>d. delete_user F uid s = (Inr True, \<lparr>stored = d, pending = []\<rparr>)
            \<and> users d = filter (\<lambda>u. User.user_id u \<noteq> uid) (users (stored s))
            \<and> uid \<notin> user_ids d
            \<and> (\<forall>f\<in>set (folders d). Folder.user_id f \<noteq> uid)
            \<and> (\<forall>e\<in>set (password_entries d). PasswordEntry.user_id e \<noteq> uid)"
    using run us gone fs es by (intro exI [of _ d]) simp
next
  fix err
  assume a: "uid \<in> user_ids (stored s) \<and> F Call_delete = None"
    and c: "F Call_commit = Some err"
  from a obtain u where u: "find (\<lambda>u. User.user_id u = uid) (users (stored s)) = Some u"
    using find_None_iff_all [of "\<lambda>u. User.user_id u = uid" "users (stored s)"]
    by (cases "find (\<lambda>u. User.user_id u = uid) (users (stored s))") (auto simp: user_ids_def)
  show "delete_user F uid s = (Inl err, s)"
    using assms a c by (simp add: delete_user_def get_user_by_id_def session_defs u)
qed

theorem delete_user_cascades_witness:
  "delete_user no_faults 9 vault = (Inr False, vault)
   \<and> delete_user no_faults 1 vault =
       (Inr True, \<lparr>stored = \<lparr>users = [bob], folders = [banking], password_entries = []\<rparr>,
                   pending = []\<rparr>)
   \<and> delete_user (failing_at Call_commit) 1 vault =
       (Inl (OperationalError ''connection lost''), vault)
   \<and> Folder.user_id work = 1 \<and> PasswordEntry.user_id gmail = 1"
proof -
  have a: "pending vault = []" "no_faults Call_query = None"
    "failing_at Call_commit Call_query = None"
    by (simp_all add: vault_def no_faults_def failing_at_def)
  have absent: "delete_user no_faults 9 vault = (Inr False, vault)"
    using delete_user_cascades [of vault no_faults 9, OF a(1,2)]
    by (simp add: vault_defs user_ids_def)
  obtain d where run: "delete_user no_faults 1 vault = (Inr True, \<lparr>stored = d, pending = []\<rparr>)"
    and us: "users d = filter (\<lambda>u. User.user_id u \<noteq> 1) (users (stored vault))"
    and fs: "\<forall>f\<in>set (folders d). Folder.user_id f \<noteq> 1"
    and es: "\<forall>e\<in>set (password_entries d). PasswordEntry.user_id e \<noteq> 1"
    using delete_user_cascades [of vault no_faults 1, OF a(1,2)]
    by (auto simp: vault_defs user_ids_def no_faults_def)
  have val: "delete_user no_faults 1 vault =
       (Inr True, \<lparr>stored = \<lparr>users = [bob], folders = [banking], password_entries = []\<rparr>,
                   pending = []\<rparr>)"
    by (simp add: delete_user_def get_user_by_id_def session_defs cascade_user_def
        cascade_folder_def delete_user_row_def delete_folder_row_def delete_entry_row_def
        Let_def no_faults_def vault_defs)
  have failed: "delete_user (failing_at Call_commit) 1 vault =
       (Inl (OperationalError ''connection lost''), vault)"
    using delete_user_cascades [of vault "failing_at Call_commit" 1, OF a(1,3)]
    by (simp add: vault_defs user_ids_def failing_at_def)
  show ?thesis
    using absent run val failed by (simp add: work_def gmail_def)
qed



























end
